theory Spec2Isabelle
  imports Complex_Main "HOL-Library.Sublist"
begin

section \<open>Console banking system: data model\<close>

text \<open>
  The program keeps a vector of accounts and an id counter. A C++ \<open>double\<close> is read as a
  real number: sums and comparisons are the exact ones, and rounding, infinities and NaN are
  outside this development. A C++ \<open>int\<close> is an integer between \<open>INT_MIN\<close> and \<open>INT_MAX\<close>;
  where the source would overflow a signed \<open>int\<close> (undefined behaviour) the operation
  returns the error \<open>signed_overflow\<close>. The clock (\<open>currentTime()\<close>) and the console input
  are arguments of the operations.
\<close>

record Transaction =
  timestamp :: string
  type :: string
  amount :: real

text \<open>The field \<open>id\<close> of the class is called \<open>getId\<close>, after its accessor.\<close>

record Account =
  getId :: int
  owner :: string
  balance :: real
  history :: "Transaction list"

record Bank =
  accounts :: "Account list"
  nextId :: int

datatype error = invalid_argument | out_of_range | signed_overflow | unmodelled_number

datatype message =
    Account_created
  | Account_not_found
  | Deposit_successful
  | Insufficient_funds
  | Withdrawal_successful
  | Invalid_account_ID
  | Transfer_completed

definition INT_MAX :: int where
  "INT_MAX = 2147483647"

definition INT_MIN :: int where
  "INT_MIN = - 2147483648"

section \<open>Account\<close>

definition Account_new :: "int \<Rightarrow> string \<Rightarrow> Account" where
  "Account_new i name = \<lparr>getId = i, owner = name, balance = 0, history = []\<rparr>"

definition deposit :: "string \<Rightarrow> real \<Rightarrow> Account \<Rightarrow> Account" where
  "deposit now a acc =
     acc\<lparr>balance := balance acc + a,
         history := history acc @ [\<lparr>timestamp = now, type = ''DEPOSIT'', amount = a\<rparr>]\<rparr>"

definition withdraw :: "string \<Rightarrow> real \<Rightarrow> Account \<Rightarrow> bool \<times> Account" where
  "withdraw now a acc =
     (if a > balance acc then (False, acc)
      else (True,
        acc\<lparr>balance := balance acc - a,
            history := history acc @ [\<lparr>timestamp = now, type = ''WITHDRAW'', amount = a\<rparr>]\<rparr>))"

definition transferOut :: "string \<Rightarrow> real \<Rightarrow> Account \<Rightarrow> Account" where
  "transferOut now a acc =
     acc\<lparr>balance := balance acc - a,
         history := history acc @ [\<lparr>timestamp = now, type = ''TRANSFER_OUT'', amount = a\<rparr>]\<rparr>"

definition transferIn :: "string \<Rightarrow> real \<Rightarrow> Account \<Rightarrow> Account" where
  "transferIn now a acc =
     acc\<lparr>balance := balance acc + a,
         history := history acc @ [\<lparr>timestamp = now, type = ''TRANSFER_IN'', amount = a\<rparr>]\<rparr>"

section \<open>Bank\<close>

definition Bank_init :: Bank where
  "Bank_init = \<lparr>accounts = [], nextId = 1\<rparr>"

text \<open>
  \<open>accounts.emplace_back(nextId++, name)\<close>: the increment of \<open>nextId\<close> at \<open>INT_MAX\<close> is a
  signed overflow.
\<close>

definition createAccount :: "string \<Rightarrow> Bank \<Rightarrow> error + Bank" where
  "createAccount name b =
     (if nextId b = INT_MAX then Inl signed_overflow
      else Inr (b\<lparr>accounts := accounts b @ [Account_new (nextId b) name],
                 nextId := nextId b + 1\<rparr>))"

text \<open>
  \<open>findAccount\<close> returns a pointer to the first element of the vector whose id matches, or
  \<open>nullptr\<close>. The pointer is the element's index; a write through the pointer is an update
  of the vector at that index, so two pointers to one account alias.
\<close>

fun findIndex :: "Account list \<Rightarrow> int \<Rightarrow> nat option" where
  "findIndex [] i = None"
| "findIndex (acc # rest) i =
     (if getId acc = i then Some 0 else map_option Suc (findIndex rest i))"

definition findAccount :: "Bank \<Rightarrow> int \<Rightarrow> nat option" where
  "findAccount b i = findIndex (accounts b) i"

definition Bank_deposit :: "string \<Rightarrow> int \<Rightarrow> real \<Rightarrow> Bank \<Rightarrow> message \<times> Bank" where
  "Bank_deposit now i a b =
     (case findAccount b i of
        None \<Rightarrow> (Account_not_found, b)
      | Some k \<Rightarrow>
          (Deposit_successful, b\<lparr>accounts := (accounts b)[k := deposit now a (accounts b ! k)]\<rparr>))"

definition Bank_withdraw :: "string \<Rightarrow> int \<Rightarrow> real \<Rightarrow> Bank \<Rightarrow> message \<times> Bank" where
  "Bank_withdraw now i a b =
     (case findAccount b i of
        None \<Rightarrow> (Account_not_found, b)
      | Some k \<Rightarrow>
          (case withdraw now a (accounts b ! k) of
             (False, acc') \<Rightarrow> (Insufficient_funds, b\<lparr>accounts := (accounts b)[k := acc']\<rparr>)
           | (True, acc') \<Rightarrow> (Withdrawal_successful, b\<lparr>accounts := (accounts b)[k := acc']\<rparr>)))"

text \<open>
  \<open>transfer\<close> reads the clock twice, once in each leg. The second leg reads the vector after
  the first leg has written it, as the write through \<open>accTo\<close> does when \<open>accTo = accFrom\<close>.
\<close>

definition transfer :: "string \<Rightarrow> string \<Rightarrow> int \<Rightarrow> int \<Rightarrow> real \<Rightarrow> Bank \<Rightarrow> message \<times> Bank" where
  "transfer now_out now_in from to a b =
     (case (findAccount b from, findAccount b to) of
        (Some kf, Some kt) \<Rightarrow>
          if balance (accounts b ! kf) < a then (Insufficient_funds, b)
          else
            let accs_out = (accounts b)[kf := transferOut now_out a (accounts b ! kf)];
                accs_in = accs_out[kt := transferIn now_in a (accs_out ! kt)]
            in (Transfer_completed, b\<lparr>accounts := accs_in\<rparr>)
      | _ \<Rightarrow> (Invalid_account_ID, b))"

section \<open>Reading numbers\<close>

text \<open>
  \<open>std::stoi\<close> and \<open>std::stod\<close> in the C locale: leading white space is skipped, one sign is
  read, the longest run of digits is converted and whatever follows is ignored. No digit at
  all is \<open>invalid_argument\<close>; a value outside \<open>int\<close> is \<open>out_of_range\<close>. For \<open>stod\<close> the decimal
  notation with an optional fraction and an optional exponent is covered; hexadecimal
  numbers, infinities and NaN have no real value and are reported as \<open>unmodelled_number\<close>.
\<close>

definition isdigit :: "char \<Rightarrow> bool" where
  "isdigit c = (48 \<le> (of_char c :: nat) \<and> (of_char c :: nat) \<le> 57)"

definition isspace :: "char \<Rightarrow> bool" where
  "isspace c = ((of_char c :: nat) = 32 \<or> 9 \<le> (of_char c :: nat) \<and> (of_char c :: nat) \<le> 13)"

definition tolower :: "char \<Rightarrow> char" where
  "tolower c =
     (if 65 \<le> (of_char c :: nat) \<and> (of_char c :: nat) \<le> 90
      then char_of ((of_char c :: nat) + 32) else c)"

definition digit_val :: "char \<Rightarrow> nat" where
  "digit_val c = of_char c - 48"

definition digits_val :: "string \<Rightarrow> nat" where
  "digits_val ds = foldl (\<lambda>n c. 10 * n + digit_val c) 0 ds"

definition split_sign :: "string \<Rightarrow> bool \<times> string" where
  "split_sign s =
     (case s of
        [] \<Rightarrow> (False, s)
      | c # r \<Rightarrow>
          if c = CHR ''-'' then (True, r)
          else if c = CHR ''+'' then (False, r)
          else (False, s))"

definition stoi :: "string \<Rightarrow> error + int" where
  "stoi s =
     (let (neg, r) = split_sign (dropWhile isspace s);
          ds = takeWhile isdigit r
      in if ds = [] then Inl invalid_argument
         else
           let v = (if neg then - int (digits_val ds) else int (digits_val ds))
           in if v < INT_MIN \<or> INT_MAX < v then Inl out_of_range else Inr v)"

definition special_literal :: "string \<Rightarrow> bool" where
  "special_literal r =
     (map tolower (take 2 r) = ''0x''
      \<or> map tolower (take 3 r) = ''inf''
      \<or> map tolower (take 3 r) = ''nan'')"

definition exponent :: "string \<Rightarrow> int" where
  "exponent r =
     (case r of
        [] \<Rightarrow> 0
      | c # t \<Rightarrow>
          if c = CHR ''e'' \<or> c = CHR ''E'' then
            let (eneg, t') = split_sign t;
                ds = takeWhile isdigit t'
            in if ds = [] then 0
               else if eneg then - int (digits_val ds) else int (digits_val ds)
          else 0)"

definition stod :: "string \<Rightarrow> error + real" where
  "stod s =
     (let (neg, r) = split_sign (dropWhile isspace s)
      in if special_literal r then Inl unmodelled_number
         else
           let ip = takeWhile isdigit r;
               r1 = dropWhile isdigit r;
               (fp, r2) =
                 (case r1 of
                    [] \<Rightarrow> ([], r1)
                  | c # t \<Rightarrow>
                      if c = CHR ''.'' then (takeWhile isdigit t, dropWhile isdigit t)
                      else ([], r1))
           in if ip = [] \<and> fp = [] then Inl invalid_argument
              else
                let m = real (digits_val ip) + real (digits_val fp) / 10 ^ length fp;
                    e = exponent r2;
                    v = (if 0 \<le> e then m * 10 ^ nat e else m / 10 ^ nat (- e))
                in Inr (if neg then - v else v))"

section \<open>Reading lines and fields\<close>

text \<open>
  A string stream is the characters not yet read and whether the stream is still good.
  \<open>getline(ss, str, d)\<close> on a stream that is no longer good leaves \<open>str\<close> as it was; on a
  good stream it erases \<open>str\<close> first, then reads up to the delimiter, which it consumes. It
  fails when it reads nothing at all, and running into the end sets \<open>eofbit\<close>, after which
  the stream is no longer good.
\<close>

type_synonym sstream = "string \<times> bool"

definition getline_ss :: "char \<Rightarrow> string \<Rightarrow> sstream \<Rightarrow> string \<times> sstream" where
  "getline_ss d str ss =
     (case ss of
        (buf, good) \<Rightarrow>
          if \<not> good then (str, (buf, False))
          else if buf = [] then ([], ([], False))
          else if d \<in> set buf
            then (takeWhile (\<lambda>c. c \<noteq> d) buf, (tl (dropWhile (\<lambda>c. c \<noteq> d) buf), True))
          else (buf, ([], False)))"

text \<open>
  The lines that successive calls of \<open>getline(file, line)\<close> return until the first call that
  fails: a last line without a newline is returned, nothing is returned after a final
  newline.
\<close>

fun getlines_from :: "string \<Rightarrow> string \<Rightarrow> string list" where
  "getlines_from cur [] = (if cur = [] then [] else [cur])"
| "getlines_from cur (c # cs) =
     (if c = CHR 0x0A then cur # getlines_from [] cs else getlines_from (cur @ [c]) cs)"

definition getlines :: "string \<Rightarrow> string list" where
  "getlines content = getlines_from [] content"

section \<open>Persistence\<close>

definition Transaction_deserialize :: "string \<Rightarrow> error + Transaction" where
  "Transaction_deserialize line =
     (let (ts, ss1) = getline_ss (CHR ''|'') [] (line, True);
          (ty, ss2) = getline_ss (CHR ''|'') [] ss1;
          (token, ss3) = getline_ss (CHR ''|'') [] ss2
      in case stod token of
           Inl e \<Rightarrow> Inl e
         | Inr a \<Rightarrow> Inr \<lparr>timestamp = ts, type = ty, amount = a\<rparr>)"

text \<open>
  The loop of \<open>Account::deserialize\<close> over the lines after the header: it stops after
  \<open>END\<close> or at the end of the file, takes the lines that start with \<open>T:\<close> as transactions
  and passes over every other line. The second component is the lines left in the file.
\<close>

fun read_block :: "string list \<Rightarrow> Account \<Rightarrow> error + (Account \<times> string list)" where
  "read_block [] acc = Inr (acc, [])"
| "read_block (line # rest) acc =
     (if line = ''END'' then Inr (acc, rest)
      else if take 2 line = ''T:'' then
        (case Transaction_deserialize (drop 2 line) of
           Inl e \<Rightarrow> Inl e
         | Inr t \<Rightarrow> read_block rest (acc\<lparr>history := history acc @ [t]\<rparr>))
      else read_block rest acc)"

definition Account_deserialize :: "string list \<Rightarrow> string \<Rightarrow> error + (Account \<times> string list)" where
  "Account_deserialize file header =
     (let (token, ss1) = getline_ss (CHR '';'') [] (header, True)
      in case stoi token of
           Inl e \<Rightarrow> Inl e
         | Inr i \<Rightarrow>
             let (name, ss2) = getline_ss (CHR '';'') [] ss1;
                 (token', ss3) = getline_ss (CHR '';'') token ss2
             in case stod token' of
                  Inl e \<Rightarrow> Inl e
                | Inr bal \<Rightarrow> read_block file ((Account_new i name)\<lparr>balance := bal\<rparr>))"

lemma read_block_length: "read_block ls acc = Inr (acc', rest) \<Longrightarrow> length rest \<le> length ls"
proof (induction ls arbitrary: acc)
  case Nil
  then show ?case by simp
next
  case (Cons l ls)
  then show ?case
    by (fastforce split: if_splits sum.splits)
qed

lemma Account_deserialize_length:
  "Account_deserialize file header = Inr (acc, rest) \<Longrightarrow> length rest \<le> length file"
  by (auto simp: Account_deserialize_def Let_def split: prod.splits sum.splits
      dest: read_block_length)

text \<open>
  The loop of \<open>Bank::load\<close>: empty lines are skipped, any other line is the header of a
  block. \<open>acc.getId() + 1\<close> overflows when the id is \<open>INT_MAX\<close>. An exception of \<open>stoi\<close> or
  \<open>stod\<close> leaves \<open>load\<close>, and the constructor with it.
\<close>

function load_loop :: "string list \<Rightarrow> Bank \<Rightarrow> error + Bank" where
  "load_loop [] b = Inr b"
| "load_loop (line # file) b =
     (if line = [] then load_loop file b
      else
        (case Account_deserialize file line of
           Inl e \<Rightarrow> Inl e
         | Inr (acc, rest) \<Rightarrow>
             if getId acc = INT_MAX then Inl signed_overflow
             else load_loop rest
                    (b\<lparr>accounts := accounts b @ [acc],
                       nextId := max (nextId b) (getId acc + 1)\<rparr>)))"
  by pat_completeness auto
termination
  by (relation "measure (\<lambda>(file, b). length file)")
     (auto dest: Account_deserialize_length)

text \<open>The file is \<open>None\<close> when it cannot be opened.\<close>

definition load :: "string option \<Rightarrow> Bank \<Rightarrow> error + Bank" where
  "load file b = (case file of None \<Rightarrow> Inr b | Some content \<Rightarrow> load_loop (getlines content) b)"







section \<open>Sessions\<close>

text \<open>
  What the operator can make the program do: the file read by the constructor, and the
  menu choices with the values typed in and the clock readings.
\<close>

datatype op =
    Create string
  | Deposit string int real
  | Withdraw string int real
  | Transfer string string int int real
  | Load "string option"

fun step :: "op \<Rightarrow> Bank \<Rightarrow> error + Bank" where
  "step (Create name) b = createAccount name b"
| "step (Deposit now i a) b = Inr (snd (Bank_deposit now i a b))"
| "step (Withdraw now i a) b = Inr (snd (Bank_withdraw now i a b))"
| "step (Transfer now_out now_in from to a) b = Inr (snd (transfer now_out now_in from to a b))"
| "step (Load file) b = load file b"

fun run :: "op list \<Rightarrow> Bank \<Rightarrow> error + Bank" where
  "run [] b = Inr b"
| "run (x # xs) b = (case step x b of Inl e \<Rightarrow> Inl e | Inr b' \<Rightarrow> run xs b')"

section \<open>Observations\<close>

text \<open>
  \<open>showHistory\<close> is given with what it prints: the entries of the account that
  \<open>findAccount\<close> returns for the id, or nothing but \<open>Account not found.\<close> The balance seen
  under an id is the balance of that same account, and the total is the sum of all balances
  of the ledger.
\<close>

definition balance_of :: "Bank \<Rightarrow> int \<Rightarrow> real option" where
  "balance_of b i = map_option (\<lambda>k. balance (accounts b ! k)) (findAccount b i)"

definition showHistory :: "Bank \<Rightarrow> int \<Rightarrow> Transaction list option" where
  "showHistory b i = map_option (\<lambda>k. history (accounts b ! k)) (findAccount b i)"


text \<open>Two ledgers used as examples.\<close>

definition ann50 :: Bank where
  "ann50 = \<lparr>accounts = [\<lparr>getId = 1, owner = ''Ann'', balance = 50, history = []\<rparr>], nextId = 2\<rparr>"


section \<open>Properties of a ledger\<close>

text \<open>
  The signed sum of a history as the specification words it: \<open>DEPOSIT\<close> and
  \<open>TRANSFER_IN\<close> count as \<open>+amount\<close>, \<open>WITHDRAW\<close> and \<open>TRANSFER_OUT\<close> as \<open>-amount\<close>. (A
  loaded entry may carry any other text as its type; it counts as nothing.) The three
  invariants of the ledger are stated over all accounts of the vector.
\<close>

definition signed :: "Transaction \<Rightarrow> real" where
  "signed t =
     (if type t = ''DEPOSIT'' \<or> type t = ''TRANSFER_IN'' then amount t
      else if type t = ''WITHDRAW'' \<or> type t = ''TRANSFER_OUT'' then - amount t
      else 0)"

definition history_sum :: "Transaction list \<Rightarrow> real" where
  "history_sum h = sum_list (map signed h)"

definition balanced :: "Account \<Rightarrow> bool" where
  "balanced acc = (balance acc = history_sum (history acc))"

definition all_balanced :: "Bank \<Rightarrow> bool" where
  "all_balanced b = list_all balanced (accounts b)"



text \<open>
  Conditions on the operations of a session: not being the load, and carrying no negative
  amount. For the load the amounts are the balances found in the file (those that loading
  it into the empty ledger yields).
\<close>

fun is_load :: "op \<Rightarrow> bool" where
  "is_load (Load file) = True"
| "is_load _ = False"


text \<open>The value of \<open>nextId\<close> after the accounts \<open>new\<close> have been loaded one by one.\<close>

definition next_after :: "int \<Rightarrow> Account list \<Rightarrow> int" where
  "next_after n new = foldl (\<lambda>n acc. max n (getId acc + 1)) n new"

section \<open>Example sessions and files\<close>

definition session :: "op list" where
  "session =
     [Create ''Alice'', Create ''Bob'', Deposit ''09:00'' 1 50,
      Transfer ''09:01'' ''09:02'' 1 2 20, Withdraw ''09:03'' 2 5]"

definition after_session :: Bank where
  "after_session =
     \<lparr>accounts =
        [\<lparr>getId = 1, owner = ''Alice'', balance = 30,
          history = [\<lparr>timestamp = ''09:00'', type = ''DEPOSIT'', amount = 50\<rparr>,
                     \<lparr>timestamp = ''09:01'', type = ''TRANSFER_OUT'', amount = 20\<rparr>]\<rparr>,
         \<lparr>getId = 2, owner = ''Bob'', balance = 15,
          history = [\<lparr>timestamp = ''09:02'', type = ''TRANSFER_IN'', amount = 20\<rparr>,
                     \<lparr>timestamp = ''09:03'', type = ''WITHDRAW'', amount = 5\<rparr>]\<rparr>],
      nextId = 3\<rparr>"

definition edited_file :: string where
  "edited_file = ''1;Bob;100\<newline>END\<newline>''"









section \<open>What a saved ledger reads back as\<close>

text \<open>
  A number read back from its printed text: \<open>reread show_double x\<close> is the value that \<open>stod\<close>
  returns for the text that \<open>ss << x\<close> prints. A ledger re-read in this way has the same
  accounts and entries with every balance and every amount replaced by its re-read value.
\<close>

definition reread :: "(real \<Rightarrow> string) \<Rightarrow> real \<Rightarrow> real" where
  "reread show_double x = (case stod (show_double x) of Inl e \<Rightarrow> x | Inr y \<Rightarrow> y)"

definition reread_transaction :: "(real \<Rightarrow> string) \<Rightarrow> Transaction \<Rightarrow> Transaction" where
  "reread_transaction show_double t = t\<lparr>amount := reread show_double (amount t)\<rparr>"

definition reread_account :: "(real \<Rightarrow> string) \<Rightarrow> Account \<Rightarrow> Account" where
  "reread_account show_double acc =
     acc\<lparr>balance := reread show_double (balance acc),
         history := map (reread_transaction show_double) (history acc)\<rparr>"
















section \<open>Facts about the account primitives\<close>

lemma findIndex_bound: "findIndex accs i = Some k \<Longrightarrow> k < length accs"
  by (induction accs arbitrary: k) (auto split: if_splits)



lemma findIndex_None: "findIndex accs i = None \<longleftrightarrow> i \<notin> getId ` set accs"
  by (induction accs) auto

text \<open>
  C4. For an account and an amount \<open>a > 0\<close>, \<open>withdraw\<close> succeeds exactly when
  \<open>a \<le> balance\<close>; then the balance is decremented by \<open>a\<close> and one \<open>WITHDRAW\<close> entry with the
  amount is appended; when \<open>a > balance\<close> it fails and leaves the balance and the history
  (the whole account) unchanged. \<open>Bank::withdraw\<close> reports the failure as
  \<open>Insufficient_funds\<close> and leaves the bank unchanged, and on success stores the
  withdrawn-from account in place.
\<close>

theorem C4_withdraw_boundary:
  assumes "0 < a"
  shows "(fst (withdraw now a acc) \<longleftrightarrow> a \<le> balance acc)
       \<and> (a \<le> balance acc \<longrightarrow>
            balance (snd (withdraw now a acc)) = balance acc - a
          \<and> history (snd (withdraw now a acc)) =
              history acc @ [\<lparr>timestamp = now, type = ''WITHDRAW'', amount = a\<rparr>]
          \<and> getId (snd (withdraw now a acc)) = getId acc
          \<and> owner (snd (withdraw now a acc)) = owner acc)
       \<and> (balance acc < a \<longrightarrow> withdraw now a acc = (False, acc))
       \<and> (findAccount b i = Some k \<and> a \<le> balance (accounts b ! k) \<longrightarrow>
            Bank_withdraw now i a b =
              (Withdrawal_successful,
               b\<lparr>accounts := (accounts b)[k := snd (withdraw now a (accounts b ! k))]\<rparr>))
       \<and> (findAccount b i = Some k \<and> balance (accounts b ! k) < a \<longrightarrow>
            Bank_withdraw now i a b = (Insufficient_funds, b))"
  by (auto simp: withdraw_def Bank_withdraw_def)

theorem C4_withdraw_boundary_witness:
  "(0::real) < 50
   \<and> fst (withdraw ''t'' 50 (hd (accounts ann50)))
   \<and> balance (snd (withdraw ''t'' 50 (hd (accounts ann50)))) = 0
   \<and> history (snd (withdraw ''t'' 50 (hd (accounts ann50))))
       = [\<lparr>timestamp = ''t'', type = ''WITHDRAW'', amount = 50\<rparr>]
   \<and> withdraw ''t'' 51 (hd (accounts ann50)) = (False, hd (accounts ann50))
   \<and> fst (Bank_withdraw ''t'' 1 50 ann50) = Withdrawal_successful
   \<and> balance_of (snd (Bank_withdraw ''t'' 1 50 ann50)) 1 = Some 0
   \<and> Bank_withdraw ''t'' 1 51 ann50 = (Insufficient_funds, ann50)"
proof -
  let ?acc = "hd (accounts ann50)"
  have f: "findAccount ann50 1 = Some 0"
    by (simp add: findAccount_def ann50_def)
  have acc: "accounts ann50 ! 0 = ?acc" "balance ?acc = 50" "history ?acc = []"
    by (simp_all add: ann50_def)
  have h50: "(0::real) < 50" and h51: "(0::real) < 51"
    by simp_all
  note at50 = C4_withdraw_boundary [OF h50, where now = "''t''" and acc = ?acc and b = ann50
      and i = 1 and k = 0]
  note at51 = C4_withdraw_boundary [OF h51, where now = "''t''" and acc = ?acc and b = ann50
      and i = 1 and k = 0]
  from at50 acc
  have 1: "fst (withdraw ''t'' 50 ?acc)" "balance (snd (withdraw ''t'' 50 ?acc)) = 0"
    "history (snd (withdraw ''t'' 50 ?acc))
       = [\<lparr>timestamp = ''t'', type = ''WITHDRAW'', amount = 50\<rparr>]"
    "getId (snd (withdraw ''t'' 50 ?acc)) = getId ?acc"
    by simp_all
  from at50 f acc
  have 2: "Bank_withdraw ''t'' 1 50 ann50 =
      (Withdrawal_successful, ann50\<lparr>accounts := (accounts ann50)[0 := snd (withdraw ''t'' 50 ?acc)]\<rparr>)"
    by simp
  have 3: "fst (Bank_withdraw ''t'' 1 50 ann50) = Withdrawal_successful"
    "balance_of (snd (Bank_withdraw ''t'' 1 50 ann50)) 1 = Some 0"
    unfolding 2 using 1(2,4) by (simp_all add: balance_of_def findAccount_def ann50_def)
  from at51 f acc
  have 4: "withdraw ''t'' 51 ?acc = (False, ?acc)"
    "Bank_withdraw ''t'' 1 51 ann50 = (Insufficient_funds, ann50)"
    by simp_all
  from h50 1(1-3) 3 4 show ?thesis by simp
qed



section \<open>Transfers, deposits and what is not validated\<close>

lemma findIndex_ids: "map getId xs = map getId ys \<Longrightarrow> findIndex xs i = findIndex ys i"
proof (induction xs arbitrary: ys)
  case Nil
  then show ?case by simp
next
  case (Cons x xs)
  then obtain y ys' where ys: "ys = y # ys'" by (cases ys) auto
  with Cons.prems have "getId x = getId y" "map getId xs = map getId ys'" by simp_all
  with Cons.IH [of ys'] ys show ?case by simp
qed

lemma findIndex_update:
  "getId acc' = getId (accs ! k) \<Longrightarrow> findIndex (accs[k := acc']) i = findIndex accs i"
proof (cases "k < length accs")
  case True
  assume "getId acc' = getId (accs ! k)"
  with True have "map getId (accs[k := acc']) = map getId accs"
    by (simp add: map_update list_update_same_conv)
  then show ?thesis by (rule findIndex_ids)
next
  case False
  then have "accs[k := acc'] = accs" by (simp add: list_update_beyond)
  then show ?thesis by simp
qed


lemma getId_deposit [simp]: "getId (deposit now a acc) = getId acc"
  by (simp add: deposit_def)

lemma getId_transferOut [simp]: "getId (transferOut now a acc) = getId acc"
  by (simp add: transferOut_def)

lemma getId_transferIn [simp]: "getId (transferIn now a acc) = getId acc"
  by (simp add: transferIn_def)

lemma getId_withdraw [simp]: "getId (snd (withdraw now a acc)) = getId acc"
  by (simp add: withdraw_def)

lemma transfer_failed:
  "fst (transfer now_out now_in from to a b) \<noteq> Transfer_completed \<Longrightarrow>
     snd (transfer now_out now_in from to a b) = b"
  by (auto simp: transfer_def Let_def split: option.splits)

lemma transfer_completed:
  assumes "fst (transfer now_out now_in from to a b) = Transfer_completed"
  obtains kf kt where
    "findAccount b from = Some kf" "findAccount b to = Some kt"
    "a \<le> balance (accounts b ! kf)"
    "accounts (snd (transfer now_out now_in from to a b)) =
       ((accounts b)[kf := transferOut now_out a (accounts b ! kf)])
         [kt := transferIn now_in a (((accounts b)[kf := transferOut now_out a (accounts b ! kf)]) ! kt)]"
    "nextId (snd (transfer now_out now_in from to a b)) = nextId b"
  using assms by (auto simp: transfer_def Let_def split: option.splits if_splits)





text \<open>
  C6 as stated fails: \<open>Bank::deposit\<close> hands a negative amount to \<open>Account::deposit\<close>,
  which subtracts it from the balance and records it.
\<close>

theorem C6_deposit_unvalidated_counterexample:
  "Bank_deposit ''t'' 1 (- 5) ann50 =
     (Deposit_successful,
      \<lparr>accounts = [\<lparr>getId = 1, owner = ''Ann'', balance = 45,
                     history = [\<lparr>timestamp = ''t'', type = ''DEPOSIT'', amount = - 5\<rparr>]\<rparr>],
       nextId = 2\<rparr>)"
  by (simp add: Bank_deposit_def ann50_def findAccount_def deposit_def)

text \<open>
  C6, as amended. \<open>Bank::deposit\<close> does not look at the amount. It locates the account, and
  answers \<open>Account_not_found\<close> without changing the ledger when there is none. Otherwise it
  delegates to \<open>Account::deposit\<close> with the amount as typed, whatever its sign: the balance
  seen under the id grows by \<open>a\<close> and a \<open>DEPOSIT\<close> entry with \<open>a\<close> is appended.
\<close>

theorem C6_deposit_unvalidated:
  "(findAccount b i = None \<longrightarrow> Bank_deposit now i a b = (Account_not_found, b))
   \<and> (findAccount b i = Some k \<longrightarrow>
        Bank_deposit now i a b =
          (Deposit_successful, b\<lparr>accounts := (accounts b)[k := deposit now a (accounts b ! k)]\<rparr>)
      \<and> balance_of (snd (Bank_deposit now i a b)) i = Some (balance (accounts b ! k) + a)
      \<and> showHistory (snd (Bank_deposit now i a b)) i =
          Some (history (accounts b ! k) @ [\<lparr>timestamp = now, type = ''DEPOSIT'', amount = a\<rparr>]))"
proof (intro conjI impI)
  assume "findAccount b i = None"
  then show "Bank_deposit now i a b = (Account_not_found, b)"
    by (simp add: Bank_deposit_def)
next
  assume k: "findAccount b i = Some k"
  then show eq: "Bank_deposit now i a b =
      (Deposit_successful, b\<lparr>accounts := (accounts b)[k := deposit now a (accounts b ! k)]\<rparr>)"
    by (simp add: Bank_deposit_def)
  from k have len: "k < length (accounts b)"
    by (auto simp: findAccount_def dest: findIndex_bound)
  have same: "findAccount (snd (Bank_deposit now i a b)) i = Some k"
    using k by (simp add: eq findAccount_def findIndex_update)
  show "balance_of (snd (Bank_deposit now i a b)) i = Some (balance (accounts b ! k) + a)"
    unfolding balance_of_def same using len by (simp add: eq deposit_def)
  show "showHistory (snd (Bank_deposit now i a b)) i =
          Some (history (accounts b ! k) @ [\<lparr>timestamp = now, type = ''DEPOSIT'', amount = a\<rparr>])"
    unfolding showHistory_def same using len by (simp add: eq deposit_def)
qed

theorem C6_deposit_unvalidated_witness:
  "findAccount ann50 1 = Some 0
   \<and> fst (Bank_deposit ''t'' 1 0 ann50) = Deposit_successful
   \<and> balance_of (snd (Bank_deposit ''t'' 1 0 ann50)) 1 = Some 50
   \<and> showHistory (snd (Bank_deposit ''t'' 1 0 ann50)) 1 =
        Some [\<lparr>timestamp = ''t'', type = ''DEPOSIT'', amount = 0\<rparr>]
   \<and> findAccount ann50 99 = None
   \<and> Bank_deposit ''t'' 99 100 ann50 = (Account_not_found, ann50)"
proof -
  have f: "findAccount ann50 1 = Some 0" and n: "findAccount ann50 99 = None"
    by (simp_all add: findAccount_def ann50_def)
  have acc: "balance (accounts ann50 ! 0) = 50" "history (accounts ann50 ! 0) = []"
    by (simp_all add: ann50_def)
  from C6_deposit_unvalidated [where b = ann50 and i = 1 and k = 0 and now = "''t''" and a = 0] f
  have r: "fst (Bank_deposit ''t'' 1 0 ann50) = Deposit_successful"
    "balance_of (snd (Bank_deposit ''t'' 1 0 ann50)) 1 = Some (balance (accounts ann50 ! 0) + 0)"
    "showHistory (snd (Bank_deposit ''t'' 1 0 ann50)) 1 =
        Some (history (accounts ann50 ! 0) @ [\<lparr>timestamp = ''t'', type = ''DEPOSIT'', amount = 0\<rparr>])"
    by auto
  from r acc
  have "fst (Bank_deposit ''t'' 1 0 ann50) = Deposit_successful"
    "balance_of (snd (Bank_deposit ''t'' 1 0 ann50)) 1 = Some 50"
    "showHistory (snd (Bank_deposit ''t'' 1 0 ann50)) 1 =
        Some [\<lparr>timestamp = ''t'', type = ''DEPOSIT'', amount = 0\<rparr>]"
    by simp_all
  moreover
  from C6_deposit_unvalidated [where b = ann50 and i = 99 and now = "''t''" and a = 100] n
  have "Bank_deposit ''t'' 99 100 ann50 = (Account_not_found, ann50)"
    by simp
  ultimately show ?thesis using f n by simp
qed




section \<open>Invariants along a session\<close>

subsection \<open>An update of one account keeps what holds of every account\<close>

lemma list_all_update: "list_all P xs \<Longrightarrow> P x \<Longrightarrow> list_all P (xs[k := x])"
  using set_update_subset_insert [of xs k x] by (auto simp: list_all_iff)

lemma list_all_nth: "list_all P xs \<Longrightarrow> k < length xs \<Longrightarrow> P (xs ! k)"
  by (simp add: list_all_length)

lemma Bank_deposit_all:
  assumes "list_all P (accounts b)" and "\<And>acc. P acc \<Longrightarrow> P (deposit now a acc)"
  shows "list_all P (accounts (snd (Bank_deposit now i a b)))"
proof (cases "findAccount b i")
  case None
  with assms(1) show ?thesis by (simp add: Bank_deposit_def)
next
  case (Some k)
  then have "k < length (accounts b)"
    by (auto simp: findAccount_def dest: findIndex_bound)
  with assms have "P (deposit now a (accounts b ! k))"
    by (simp add: list_all_nth)
  with assms(1) Some show ?thesis
    by (simp add: Bank_deposit_def list_all_update)
qed

lemma Bank_withdraw_all:
  assumes "list_all P (accounts b)" and "\<And>acc. P acc \<Longrightarrow> P (snd (withdraw now a acc))"
  shows "list_all P (accounts (snd (Bank_withdraw now i a b)))"
proof (cases "findAccount b i")
  case None
  with assms(1) show ?thesis by (simp add: Bank_withdraw_def)
next
  case (Some k)
  then have "k < length (accounts b)"
    by (auto simp: findAccount_def dest: findIndex_bound)
  with assms have "P (snd (withdraw now a (accounts b ! k)))"
    by (simp add: list_all_nth)
  with assms(1) Some show ?thesis
    by (auto simp: Bank_withdraw_def list_all_update split: prod.splits bool.splits)
qed

lemma transfer_all:
  assumes "list_all P (accounts b)"
    and "\<And>acc. P acc \<Longrightarrow> a \<le> balance acc \<Longrightarrow> P (transferOut now_out a acc)"
    and "\<And>acc. P acc \<Longrightarrow> P (transferIn now_in a acc)"
  shows "list_all P (accounts (snd (transfer now_out now_in from to a b)))"
proof (cases "fst (transfer now_out now_in from to a b) = Transfer_completed")
  case False
  with assms(1) show ?thesis by (simp add: transfer_failed)
next
  case True
  then obtain kf kt where k: "findAccount b from = Some kf" "findAccount b to = Some kt"
    and enough: "a \<le> balance (accounts b ! kf)"
    and acc: "accounts (snd (transfer now_out now_in from to a b)) =
       ((accounts b)[kf := transferOut now_out a (accounts b ! kf)])
         [kt := transferIn now_in a (((accounts b)[kf := transferOut now_out a (accounts b ! kf)]) ! kt)]"
    by (rule transfer_completed)
  from k have lf: "kf < length (accounts b)" and lt: "kt < length (accounts b)"
    by (auto simp: findAccount_def dest: findIndex_bound)
  let ?accs = "(accounts b)[kf := transferOut now_out a (accounts b ! kf)]"
  from assms(1) lf have "P (accounts b ! kf)" by (rule list_all_nth)
  then have "P (transferOut now_out a (accounts b ! kf))" using enough by (rule assms(2))
  with assms(1) have 1: "list_all P ?accs" by (rule list_all_update)
  from lt have "kt < length ?accs" by simp
  with 1 have "P (?accs ! kt)" by (rule list_all_nth)
  then have "P (transferIn now_in a (?accs ! kt))" by (rule assms(3))
  with 1 have "list_all P (?accs[kt := transferIn now_in a (?accs ! kt)])" by (rule list_all_update)
  with acc show ?thesis by simp
qed

lemma nextId_Bank_deposit [simp]: "nextId (snd (Bank_deposit now i a b)) = nextId b"
  by (simp add: Bank_deposit_def split: option.splits)

lemma nextId_Bank_withdraw [simp]: "nextId (snd (Bank_withdraw now i a b)) = nextId b"
  by (simp add: Bank_withdraw_def split: option.splits prod.splits bool.splits)

lemma nextId_transfer [simp]: "nextId (snd (transfer now_out now_in from to a b)) = nextId b"
  by (simp add: transfer_def Let_def split: option.splits)

subsection \<open>What the load appends\<close>








subsection \<open>Balance and history\<close>

lemma history_sum_snoc: "history_sum (h @ [t]) = history_sum h + signed t"
  by (simp add: history_sum_def)

lemma balanced_deposit: "balanced acc \<Longrightarrow> balanced (deposit now a acc)"
  by (simp add: balanced_def deposit_def history_sum_snoc signed_def)

lemma balanced_withdraw: "balanced acc \<Longrightarrow> balanced (snd (withdraw now a acc))"
  by (simp add: balanced_def withdraw_def history_sum_snoc signed_def)

lemma balanced_transferOut: "balanced acc \<Longrightarrow> balanced (transferOut now a acc)"
  by (simp add: balanced_def transferOut_def history_sum_snoc signed_def)

lemma balanced_transferIn: "balanced acc \<Longrightarrow> balanced (transferIn now a acc)"
  by (simp add: balanced_def transferIn_def history_sum_snoc signed_def)

lemma balanced_new: "balanced (Account_new i name)"
  by (simp add: balanced_def Account_new_def history_sum_def)

lemma step_balanced:
  assumes "all_balanced b" and "\<not> is_load x" and "step x b = Inr b'"
  shows "all_balanced b'"
proof (cases x)
  case (Create name)
  with assms show ?thesis
    by (auto simp: all_balanced_def createAccount_def balanced_new split: if_splits)
next
  case (Deposit now i a)
  with assms(3) have "b' = snd (Bank_deposit now i a b)" by simp
  with assms(1) show ?thesis
    unfolding all_balanced_def by (simp add: Bank_deposit_all balanced_deposit)
next
  case (Withdraw now i a)
  with assms(3) have "b' = snd (Bank_withdraw now i a b)" by simp
  with assms(1) show ?thesis
    unfolding all_balanced_def by (simp add: Bank_withdraw_all balanced_withdraw)
next
  case (Transfer now_out now_in src dst a)
  with assms(3) have "b' = snd (transfer now_out now_in src dst a b)" by simp
  with assms(1) show ?thesis
    unfolding all_balanced_def by (simp add: transfer_all balanced_transferOut balanced_transferIn)
next
  case (Load content)
  with assms(2) show ?thesis by simp
qed

lemma run_balanced:
  "all_balanced b \<Longrightarrow> list_all (\<lambda>x. \<not> is_load x) ops \<Longrightarrow> run ops b = Inr b' \<Longrightarrow> all_balanced b'"
proof (induction ops arbitrary: b)
  case Nil
  then show ?case by simp
next
  case (Cons x ops)
  from Cons.prems(3) obtain b1 where s: "step x b = Inr b1" and r: "run ops b1 = Inr b'"
    by (auto split: sum.splits)
  from Cons.prems(1,2) s have "all_balanced b1" by (auto intro: step_balanced)
  with Cons.prems(2) r show ?case by (auto intro: Cons.IH)
qed

text \<open>
  C1, as amended. The empty ledger has every balance equal to the signed sum of its
  history, and every sequence of create, deposit, withdraw and transfer operations keeps
  it so, from any ledger where it holds. (The load is left out: it takes the balance from
  the header of the block.)
\<close>

theorem C1_balance_is_history_sum:
  "all_balanced Bank_init
   \<and> (all_balanced b \<and> list_all (\<lambda>x. \<not> is_load x) ops \<and> run ops b = Inr b' \<longrightarrow> all_balanced b')"
proof
  show "all_balanced Bank_init"
    by (simp add: all_balanced_def Bank_init_def)
  show "all_balanced b \<and> list_all (\<lambda>x. \<not> is_load x) ops \<and> run ops b = Inr b' \<longrightarrow> all_balanced b'"
    by (blast intro: run_balanced)
qed

lemma run_session: "run session Bank_init = Inr after_session"
  by (simp add: session_def after_session_def Bank_init_def createAccount_def INT_MAX_def
      Account_new_def Bank_deposit_def Bank_withdraw_def transfer_def findAccount_def
      deposit_def withdraw_def transferOut_def transferIn_def)

theorem C1_balance_is_history_sum_witness:
  "all_balanced Bank_init \<and> list_all (\<lambda>x. \<not> is_load x) session
   \<and> run session Bank_init = Inr after_session \<and> all_balanced after_session"
proof -
  have 1: "list_all (\<lambda>x. \<not> is_load x) session"
    by (simp add: session_def)
  from C1_balance_is_history_sum [of Bank_init session after_session] 1 run_session
  show ?thesis by blast
qed

text \<open>
  C1 as stated fails for the load: the balance is read from the header line and is not
  compared with the transactions of the block. A file with one block, balance 100 and no
  transaction, loads into an account whose history sums to 0.
\<close>

theorem C1_load_counterexample:
  "run [Load (Some edited_file)] Bank_init =
     Inr \<lparr>accounts = [\<lparr>getId = 1, owner = ''Bob'', balance = 100, history = []\<rparr>], nextId = 2\<rparr>
   \<and> \<not> all_balanced
        \<lparr>accounts = [\<lparr>getId = 1, owner = ''Bob'', balance = 100, history = []\<rparr>], nextId = 2\<rparr>"
  by (simp add: edited_file_def load_def getlines_def Bank_init_def Account_deserialize_def
      getline_ss_def Account_new_def INT_MAX_def INT_MIN_def stoi_def stod_def split_sign_def
      isspace_def special_literal_def tolower_def isdigit_def digits_val_def digit_val_def
      exponent_def all_balanced_def balanced_def history_sum_def)

subsection \<open>Balances below zero\<close>







subsection \<open>The id counter\<close>












section \<open>Blocks with the same id\<close>







section \<open>Saving and loading\<close>

subsection \<open>Printing and reading an id\<close>


















subsection \<open>Lines and fields\<close>













subsection \<open>One block\<close>









lemma getId_reread_account [simp]: "getId (reread_account sd acc) = getId acc"
  by (simp add: reread_account_def)

lemma next_after_reread:
  "next_after n (map (reread_account sd) accs) = next_after n accs"
  by (induction accs arbitrary: n) (simp_all add: next_after_def)




subsection \<open>What every session keeps\<close>
























end
